theory Spec2Isabelle
  imports Complex_Main "HOL-Library.Word" "HOL-Library.Log_Nat"
begin

unbundle bit_operations_syntax

section \<open>Data model (app.py, type hints)\<close>

text \<open>
  The TypedDicts of app.py become records. A field typed \<open>Optional[str]\<close> is a
  \<open>string option\<close> (\<open>None\<close> is Python's \<open>None\<close>). Field names follow the source;
  where two dictionaries use one key (\<open>name\<close>, \<open>role\<close>, \<open>region\<close>, \<open>type\<close>) the record
  field carries the dictionary's name as a prefix.
\<close>

record user =
  username :: string
  password :: string
  user_role :: string
  user_region :: string
  active :: bool

record case_reporter =
  reporter_name :: string
  reporter_role :: string
  agent_number :: "string option"
  contact :: "string option"

record case_issue =
  issue_type :: string
  description :: string
  attachments :: "string list"

record case_resolution =
  res_notes :: string
  action_taken :: string
  timestamp :: string

record case_timestamps =
  received :: "string option"
  logged :: string
  resolved :: "string option"

record support_case =
  case_id :: string
  channel :: string
  timestamps :: case_timestamps
  reporter :: case_reporter
  region :: string
  issue :: case_issue
  status :: string
  resolution :: "case_resolution option"
  handled_by :: string

section \<open>Clock readings and their text form\<close>

text \<open>
  \<open>datetime.now()\<close> is an input of the model: every call site takes the clock reading
  as a parameter. Only the fields printed by the two format strings of app.py are kept.
\<close>

record datetime =
  dt_year :: nat
  dt_month :: nat
  dt_day :: nat
  dt_hour :: nat
  dt_minute :: nat
  dt_second :: nat

text \<open>Decimal text of a natural number (\<open>str(n)\<close>).\<close>

fun show_nat :: "nat \<Rightarrow> string" where
  "show_nat n =
     (if n < 10 then [''0123456789'' ! n]
      else show_nat (n div 10) @ [''0123456789'' ! (n mod 10)])"

declare show_nat.simps [simp del]

text \<open>Left padding with zeros to a width, as \<open>%m\<close>, \<open>%d\<close>, \<open>%H\<close>, \<open>%M\<close>, \<open>%S\<close> do.\<close>

definition zfill :: "nat \<Rightarrow> string \<Rightarrow> string" where
  "zfill w s = replicate (w - length s) (CHR ''0'') @ s"

text \<open>
  \<open>strftime('%Y%m%d')\<close> and \<open>strftime("%Y-%m-%d %H:%M:%S")\<close>. The year is padded to
  four digits; for years below 1000 the C library decides, so the theorems below that
  speak of the text's shape ask for a year from 1000 on.
\<close>

definition strftime_Ymd :: "datetime \<Rightarrow> string" where
  "strftime_Ymd d =
     zfill 4 (show_nat (dt_year d)) @ zfill 2 (show_nat (dt_month d)) @ zfill 2 (show_nat (dt_day d))"

definition strftime_full :: "datetime \<Rightarrow> string" where
  "strftime_full d =
     zfill 4 (show_nat (dt_year d)) @ ''-'' @ zfill 2 (show_nat (dt_month d)) @ ''-'' @
     zfill 2 (show_nat (dt_day d)) @ '' '' @ zfill 2 (show_nat (dt_hour d)) @ '':'' @
     zfill 2 (show_nat (dt_minute d)) @ '':'' @ zfill 2 (show_nat (dt_second d))"

section \<open>Database functions (app.py, lines 84-167)\<close>

text \<open>
  The SQLite file holds two tables. A row of \<open>cases\<close> is the pair of its columns
  \<open>(case_id, case_data)\<close>; \<open>case_data\<close> is the JSON text of the whole case, written by
  \<open>json.dumps\<close> and read by \<open>json.loads\<close>, which is modelled by keeping the case itself
  in the column. A row of \<open>users\<close> is a \<open>user\<close>. Rows are kept in insertion order.
\<close>

record database =
  cases_tbl :: "(string \<times> support_case) list"
  users_tbl :: "user list"

text \<open>A database file that has just been created: both tables exist and are empty.\<close>

definition fresh_db :: database where
  "fresh_db = \<lparr>cases_tbl = [], users_tbl = []\<rparr>"

definition admin_user :: user where
  "admin_user = \<lparr>username = ''admin'', password = ''admin123'', user_role = ''Admin'',
                  user_region = ''All'', active = True\<rparr>"

text \<open>
  \<open>init_db\<close>: \<open>CREATE TABLE IF NOT EXISTS\<close> keeps existing tables; \<open>INSERT OR IGNORE\<close>
  adds the default administrator unless a row with the primary key \<open>admin\<close> is there.
\<close>

definition init_db :: "database \<Rightarrow> database" where
  "init_db db =
     (if list_ex (\<lambda>u. username u = ''admin'') (users_tbl db) then db
      else db\<lparr>users_tbl := users_tbl db @ [admin_user]\<rparr>)"

text \<open>
  \<open>save_case\<close>: \<open>INSERT OR REPLACE\<close> deletes the row holding the primary key, if any,
  and inserts the new row.
\<close>

definition save_case :: "support_case \<Rightarrow> database \<Rightarrow> database" where
  "save_case c db =
     db\<lparr>cases_tbl := filter (\<lambda>row. fst row \<noteq> case_id c) (cases_tbl db) @ [(case_id c, c)]\<rparr>"

definition get_all_cases :: "database \<Rightarrow> support_case list" where
  "get_all_cases db = map snd (cases_tbl db)"

definition delete_case :: "string \<Rightarrow> database \<Rightarrow> database" where
  "delete_case k db = db\<lparr>cases_tbl := filter (\<lambda>row. fst row \<noteq> k) (cases_tbl db)\<rparr>"

definition get_all_users :: "database \<Rightarrow> user list" where
  "get_all_users db = users_tbl db"

text \<open>
  The document of the first row whose key column is \<open>k\<close>. app.py has no such query;
  the function serves to state what the table holds under a key.
\<close>

definition lookup_case :: "database \<Rightarrow> string \<Rightarrow> support_case option" where
  "lookup_case db k = map_option snd (find (\<lambda>row. fst row = k) (cases_tbl db))"

text \<open>
  What every table written by \<open>save_case\<close> satisfies: the key column is the
  \<open>case_id\<close> inside the stored document, and the primary key is unique.
\<close>

definition store_ok :: "database \<Rightarrow> bool" where
  "store_ok db =
     (list_all (\<lambda>row. case_id (snd row) = fst row) (cases_tbl db) \<and> distinct (map fst (cases_tbl db)))"

section \<open>Case resolution (app.py, \<open>resolve_case\<close>)\<close>

text \<open>
  What the interface shows (\<open>st.error\<close>, \<open>st.success\<close>). Nothing is raised: the page
  reports and goes on.
\<close>

datatype notice = Error string | Success string

text \<open>
  \<open>resolve_case\<close> on the submitted form: \<open>close\<close> and \<open>escalate\<close> are the two submit
  buttons, \<open>resolution_notes\<close> the text area, \<open>now\<close> the clock reading. The case
  dictionary is mutated in place, so the result carries the dictionary after the call,
  next to the notice and the database.
\<close>

definition resolve_case ::
  "support_case option \<Rightarrow> string \<Rightarrow> bool \<Rightarrow> bool \<Rightarrow> datetime \<Rightarrow> database
    \<Rightarrow> notice option \<times> support_case option \<times> database" where
  "resolve_case cur resolution_notes close escalate now db =
     (case cur of
        None \<Rightarrow> (Some (Error ''No case selected''), None, db)
      | Some c \<Rightarrow>
          if close \<or> escalate then
            if resolution_notes = [] then (Some (Error ''Please provide resolution notes''), Some c, db)
            else
              let c1 = (if close then c\<lparr>status := ''Closed''\<rparr> else c\<lparr>status := ''Open''\<rparr>);
                  action = (if close then ''closed'' else ''escalated (marked as Open)'');
                  c2 = c1\<lparr>resolution := Some \<lparr>res_notes = resolution_notes,
                          action_taken = (if close then ''Closed by agent''
                                          else ''Escalated to senior support''),
                          timestamp = strftime_full now\<rparr>\<rparr>
              in (Some (Success (''Case has been '' @ action @ '' successfully!'')), Some c2, save_case c2 db)
          else (None, Some c, db))"

section \<open>Authentication (app.py, \<open>login_page\<close>)\<close>

text \<open>
  The submit branch of \<open>login_page\<close>: the first stored user with this name, this
  password and \<open>active\<close> set is logged in; \<open>Inl\<close> carries the text of \<open>st.error\<close>.
\<close>

definition login :: "string \<Rightarrow> string \<Rightarrow> database \<Rightarrow> string + user" where
  "login uname pw db =
     (if uname \<noteq> [] \<and> pw \<noteq> [] then
        (case find (\<lambda>u. username u = uname \<and> password u = pw \<and> active u) (get_all_users db) of
           Some u \<Rightarrow> Inr u
         | None \<Rightarrow> Inl ''Invalid credentials or inactive account'')
      else Inl ''Please enter both username and password'')"

section \<open>Case creation (app.py, lines 486-654)\<close>

text \<open>
  \<open>uuid.uuid4()\<close> is an input of the model, a 128-bit word. \<open>str\<close> of a UUID is its 32
  lower-case hexadecimal digits, most significant first, grouped 8-4-4-4-12.
\<close>

definition hex_digit :: "nat \<Rightarrow> char" where
  "hex_digit n = ''0123456789abcdef'' ! n"

definition uuid_hex :: "128 word \<Rightarrow> string" where
  "uuid_hex u = map (\<lambda>i. hex_digit (unat ((drop_bit (4 * (31 - i)) u) AND 15))) [0..<32]"

definition str_uuid :: "128 word \<Rightarrow> string" where
  "str_uuid u =
     (let h = uuid_hex u
      in take 8 h @ ''-'' @ take 4 (drop 8 h) @ ''-'' @ take 4 (drop 12 h) @ ''-'' @
         take 4 (drop 16 h) @ ''-'' @ drop 20 h)"

text \<open>
  \<open>generate_case_id\<close>. Its \<open>except\<close> branch answers a failure of the clock or of the
  random source; the model takes both readings as given, so the branch has no input.
\<close>

definition generate_case_id :: "datetime \<Rightarrow> 128 word \<Rightarrow> string" where
  "generate_case_id now u = ''VL-'' @ strftime_Ymd now @ ''-'' @ take 8 (str_uuid u)"

definition validate_case_form :: "string \<Rightarrow> string \<Rightarrow> string \<Rightarrow> string \<Rightarrow> string \<Rightarrow> bool" where
  "validate_case_form name role reg itype descr =
     (if \<not> list_all (\<lambda>s. s \<noteq> []) [name, role, reg, itype, descr] then False else True)"

text \<open>
  The widgets of the case form as they stand when Submit is pressed. A widget that the
  chosen channel or role does not render is never read by the code that follows.
\<close>

record case_form =
  in_channel :: string
  in_name :: string
  in_role :: string
  in_agent_num :: string
  in_phone :: string
  in_email :: string
  in_received :: datetime
  in_region :: string
  in_issue_type :: string
  in_description :: string
  in_resolution_notes :: string
  in_uploaded_files :: "string list"

text \<open>The dictionary \<open>st.session_state.form_data\<close> built at lines 621-634.\<close>

record form_data =
  fd_channel :: string
  fd_name :: string
  fd_role :: string
  fd_agent_num :: "string option"
  fd_phone :: "string option"
  fd_email :: "string option"
  fd_received_time :: "string option"
  fd_region :: string
  fd_issue_type :: string
  fd_description :: string
  fd_resolution_notes :: string
  fd_attachments :: "string list"

definition collect_form_data :: "case_form \<Rightarrow> form_data" where
  "collect_form_data w =
     \<lparr>fd_channel = in_channel w,
      fd_name = in_name w,
      fd_role = in_role w,
      fd_agent_num = (if in_role w = ''Agent'' then Some (in_agent_num w) else None),
      fd_phone = (if in_channel w \<in> set [''WhatsApp'', ''Voice Call''] then Some (in_phone w) else None),
      fd_email = (if in_channel w = ''Email'' then Some (in_email w) else None),
      fd_received_time =
        (if in_channel w = ''WhatsApp'' then Some (strftime_full (in_received w)) else None),
      fd_region = in_region w,
      fd_issue_type = in_issue_type w,
      fd_description = in_description w,
      fd_resolution_notes = in_resolution_notes w,
      fd_attachments =
        (if in_channel w \<in> set [''WhatsApp'', ''Email''] then in_uploaded_files w else [])\<rparr>"

text \<open>Python's \<open>a or b\<close> on optional strings: \<open>a\<close> when it is a non-empty string, else \<open>b\<close>.\<close>

definition py_or :: "string option \<Rightarrow> string option \<Rightarrow> string option" where
  "py_or a b = (case a of None \<Rightarrow> b | Some s \<Rightarrow> if s = [] then b else Some s)"

text \<open>
  \<open>create_new_case\<close>. The clock is read three times (case id, \<open>logged\<close>, resolution
  timestamp), hence three readings; \<open>acting\<close> is \<open>st.session_state.user['username']\<close>.
\<close>

definition create_new_case ::
  "form_data \<Rightarrow> string \<Rightarrow> datetime \<Rightarrow> datetime \<Rightarrow> datetime \<Rightarrow> 128 word \<Rightarrow> support_case" where
  "create_new_case fd acting now_id now_logged now_res u =
     (let c = \<lparr>case_id = generate_case_id now_id u,
                channel = fd_channel fd,
                timestamps = \<lparr>received = fd_received_time fd, logged = strftime_full now_logged,
                              resolved = None\<rparr>,
                reporter = \<lparr>reporter_name = fd_name fd, reporter_role = fd_role fd,
                            agent_number = fd_agent_num fd,
                            contact = py_or (fd_phone fd) (fd_email fd)\<rparr>,
                region = fd_region fd,
                issue = \<lparr>issue_type = fd_issue_type fd, description = fd_description fd,
                         attachments = fd_attachments fd\<rparr>,
                status = ''Open'',
                resolution = None,
                handled_by = acting\<rparr>
      in if fd_resolution_notes fd \<noteq> [] then
           c\<lparr>resolution := Some \<lparr>res_notes = fd_resolution_notes fd, action_taken = ''Initial notes'',
                                  timestamp = strftime_full now_res\<rparr>\<rparr>
         else c)"

text \<open>
  The submit branch of \<open>new_case_form\<close>: the required-field check, the three
  channel and role checks, then creation and \<open>save_case\<close>. \<open>Inl\<close> carries the text of
  \<open>st.error\<close>; on \<open>Inr\<close> the new case is also the current case of the session.
\<close>

definition new_case_form_submit ::
  "case_form \<Rightarrow> string \<Rightarrow> datetime \<Rightarrow> datetime \<Rightarrow> datetime \<Rightarrow> 128 word \<Rightarrow> database
    \<Rightarrow> string + support_case \<times> database" where
  "new_case_form_submit w acting now_id now_logged now_res u db =
     (if validate_case_form (in_name w) (in_role w) (in_region w) (in_issue_type w) (in_description w)
      then
        if in_role w = ''Agent'' \<and> in_agent_num w = [] then
          Inl ''Agent number is required for Agent role''
        else if in_channel w \<in> set [''WhatsApp'', ''Voice Call''] \<and> in_phone w = [] then
          Inl ''Phone number is required for this channel''
        else if in_channel w = ''Email'' \<and> in_email w = [] then
          Inl ''Email address is required for email cases''
        else
          let new_case = create_new_case (collect_form_data w) acting now_id now_logged now_res u
          in Inr (new_case, save_case new_case db)
      else Inl ''Please fill all required fields (*)'')"




text \<open>
  Reading hexadecimal digits back as a number, most significant first; \<open>None\<close> when a
  character is no lower-case hexadecimal digit. (The decimal reader is \<open>digits_value\<close>
  below.)
\<close>

definition hex_val :: "char \<Rightarrow> nat option" where
  "hex_val ch =
     map_of [(CHR ''0'', 0), (CHR ''1'', 1), (CHR ''2'', 2), (CHR ''3'', 3), (CHR ''4'', 4),
             (CHR ''5'', 5), (CHR ''6'', 6), (CHR ''7'', 7), (CHR ''8'', 8), (CHR ''9'', 9),
             (CHR ''a'', 10), (CHR ''b'', 11), (CHR ''c'', 12), (CHR ''d'', 13), (CHR ''e'', 14),
             (CHR ''f'', 15)] ch"

fun hex_value :: "nat \<Rightarrow> string \<Rightarrow> nat option" where
  "hex_value acc [] = Some acc"
| "hex_value acc (ch # cs) =
     (case hex_val ch of None \<Rightarrow> None | Some v \<Rightarrow> hex_value (16 * acc + v) cs)"

section \<open>Case list (app.py, \<open>filter_cases\<close>)\<close>

definition filter_cases :: "string \<Rightarrow> database \<Rightarrow> support_case list" where
  "filter_cases case_filter db =
     (let cases = get_all_cases db
      in if cases = [] then []
         else if case_filter = ''All'' then cases
         else if case_filter = ''Open'' then
           filter (\<lambda>c. status c \<in> set [''Open'', ''Escalated'']) cases
         else filter (\<lambda>c. status c = case_filter) cases)"

section \<open>Dates (Python's \<open>datetime\<close>, as far as app.py uses it)\<close>

text \<open>
  The library's own arithmetic: leap years, days in a month, the proleptic Gregorian
  ordinal of a date (\<open>_ymd2ord\<close>), and the seconds between two readings, which is what
  \<open>(a - b).total_seconds()\<close> returns for readings without microseconds.
\<close>

definition is_leap :: "nat \<Rightarrow> bool" where
  "is_leap y = (y mod 4 = 0 \<and> (y mod 100 \<noteq> 0 \<or> y mod 400 = 0))"

definition days_in_month :: "nat \<Rightarrow> nat \<Rightarrow> nat" where
  "days_in_month y m =
     (if m = 2 \<and> is_leap y then 29
      else if 1 \<le> m \<and> m \<le> 12 then [0, 31, 28, 31, 30, 31, 30, 31, 31, 30, 31, 30, 31] ! m
      else 0)"

definition valid_datetime :: "datetime \<Rightarrow> bool" where
  "valid_datetime d =
     (1 \<le> dt_year d \<and> dt_year d \<le> 9999 \<and> 1 \<le> dt_month d \<and> dt_month d \<le> 12 \<and>
      1 \<le> dt_day d \<and> dt_day d \<le> days_in_month (dt_year d) (dt_month d) \<and>
      dt_hour d < 24 \<and> dt_minute d < 60 \<and> dt_second d < 60)"

definition days_before_year :: "nat \<Rightarrow> nat" where
  "days_before_year y = (let y1 = y - 1 in y1 * 365 + y1 div 4 - y1 div 100 + y1 div 400)"

definition days_before_month :: "nat \<Rightarrow> nat \<Rightarrow> nat" where
  "days_before_month y m =
     (if 1 \<le> m \<and> m \<le> 12 then
        [0, 0, 31, 59, 90, 120, 151, 181, 212, 243, 273, 304, 334] ! m +
        (if m > 2 \<and> is_leap y then 1 else 0)
      else 0)"

definition ymd2ord :: "nat \<Rightarrow> nat \<Rightarrow> nat \<Rightarrow> nat" where
  "ymd2ord y m d = days_before_year y + days_before_month y m + d"

definition seconds_of :: "datetime \<Rightarrow> int" where
  "seconds_of d =
     int (ymd2ord (dt_year d) (dt_month d) (dt_day d)) * 86400 +
     int (dt_hour d) * 3600 + int (dt_minute d) * 60 + int (dt_second d)"

definition total_seconds_between :: "datetime \<Rightarrow> datetime \<Rightarrow> int" where
  "total_seconds_between a b = seconds_of a - seconds_of b"

text \<open>
  \<open>datetime.strptime(s, "%Y-%m-%d %H:%M:%S")\<close> is library code; the functions of app.py
  that call it take the parser as a parameter, \<open>None\<close> standing for \<open>ValueError\<close>.
  \<open>strptime_padded\<close> is the parser on the texts \<open>strftime_full\<close> writes (nineteen
  characters, every field zero-padded), where it reads the six fields back and rejects
  a date that does not exist; any other text it rejects.
\<close>

definition digit_val :: "char \<Rightarrow> nat option" where
  "digit_val ch =
     map_of [(CHR ''0'', 0), (CHR ''1'', 1), (CHR ''2'', 2), (CHR ''3'', 3), (CHR ''4'', 4),
             (CHR ''5'', 5), (CHR ''6'', 6), (CHR ''7'', 7), (CHR ''8'', 8), (CHR ''9'', 9)] ch"

fun digits_value :: "nat \<Rightarrow> string \<Rightarrow> nat option" where
  "digits_value acc [] = Some acc"
| "digits_value acc (ch # cs) =
     (case digit_val ch of None \<Rightarrow> None | Some v \<Rightarrow> digits_value (10 * acc + v) cs)"

definition strptime_padded :: "string \<Rightarrow> datetime option" where
  "strptime_padded s =
     (if length s = 19 \<and> take 1 (drop 4 s) = ''-'' \<and> take 1 (drop 7 s) = ''-'' \<and>
         take 1 (drop 10 s) = '' '' \<and> take 1 (drop 13 s) = '':'' \<and> take 1 (drop 16 s) = '':''
      then
        (case (digits_value 0 (take 4 s), digits_value 0 (take 2 (drop 5 s)),
               digits_value 0 (take 2 (drop 8 s)), digits_value 0 (take 2 (drop 11 s)),
               digits_value 0 (take 2 (drop 14 s)), digits_value 0 (take 2 (drop 17 s))) of
           (Some y, Some m, Some d, Some h, Some mi, Some se) \<Rightarrow>
             (let dt = \<lparr>dt_year = y, dt_month = m, dt_day = d, dt_hour = h, dt_minute = mi,
                        dt_second = se\<rparr>
              in if valid_datetime dt then Some dt else None)
         | _ \<Rightarrow> None)
      else None)"

section \<open>Case details (app.py, \<open>display_case_details\<close>, lines 706-713)\<close>

text \<open>
  The WhatsApp response time in minutes, \<open>None\<close> when the metric is not shown. Both
  \<open>strptime\<close> calls sit in one \<open>try\<close> whose \<open>except\<close> passes. The value is the exact
  quotient; the rounding of the floating-point division is not modelled.
\<close>

definition whatsapp_response_mins ::
  "(string \<Rightarrow> datetime option) \<Rightarrow> support_case \<Rightarrow> real option" where
  "whatsapp_response_mins strptime c =
     (if channel c = ''WhatsApp'' then
        (case received (timestamps c) of
           None \<Rightarrow> None
         | Some r \<Rightarrow>
             if r = [] then None
             else
               (case strptime r of
                  None \<Rightarrow> None
                | Some received_t \<Rightarrow>
                    (case strptime (logged (timestamps c)) of
                       None \<Rightarrow> None
                     | Some logged_t \<Rightarrow>
                         Some (real_of_int (total_seconds_between logged_t received_t) / 60))))
      else None)"

section \<open>Dashboard (app.py, \<open>dashboard\<close>, lines 844-868)\<close>

text \<open>
  Python's \<open>float\<close> is the IEEE double. A finite double is kept as the rational number
  it stands for. \<open>round_double\<close> is the rounding every double operation ends with:
  to the nearest number with 53 significant bits, ties to the even one, the unit in the
  last place never below \<open>2 powi -1074\<close> (the subnormal range). Numbers from
  \<open>2 powi 1024\<close> on, where a double overflows, do not arise below: no rate exceeds 100.
\<close>

definition round_half_even :: "rat \<Rightarrow> int" where
  "round_half_even x =
     (let f = \<lfloor>x\<rfloor>; r = x - of_int f
      in if r < 1 / 2 then f else if 1 / 2 < r then f + 1 else if even f then f else f + 1)"

text \<open>The integer \<open>k\<close> with \<open>2 powi k \<le> q < 2 powi (k + 1)\<close>, for positive \<open>q\<close>.\<close>

definition ilog2 :: "rat \<Rightarrow> int" where
  "ilog2 q =
     (let (a, b) = quotient_of q; k = bitlen a - bitlen b
      in if 2 powi k \<le> q then k else k - 1)"

definition round_double :: "rat \<Rightarrow> rat" where
  "round_double q =
     (if q = 0 then 0
      else let e = max (ilog2 \<bar>q\<bar> - 52) (- 1074)
           in sgn q * of_int (round_half_even (\<bar>q\<bar> / 2 powi e)) * 2 powi e)"

text \<open>
  \<open>a / b\<close> on two Python integers is the double nearest to the exact quotient;
  \<open>x * y\<close> on doubles is the double nearest to the exact product (an integer operand,
  here 100, is first converted, exactly).
\<close>

definition int_truediv :: "int \<Rightarrow> int \<Rightarrow> rat" where
  "int_truediv a b = round_double (of_int a / of_int b)"

definition float_mul :: "rat \<Rightarrow> rat \<Rightarrow> rat" where
  "float_mul x y = round_double (x * y)"

text \<open>
  \<open>f"{x:.1f}"\<close>: the multiple of one tenth nearest to the number the double stands
  for, ties to the even one, printed with one digit after the point.
\<close>

definition format_1f :: "rat \<Rightarrow> string" where
  "format_1f x =
     (let t = nat \<bar>round_half_even (x * 10)\<bar>
      in (if x < 0 then ''-'' else []) @ show_nat (t div 10) @ ''.'' @ show_nat (t mod 10))"

text \<open>Lines 866-867. The division is guarded by \<open>if cases\<close>, as in the source.\<close>

definition resolution_rate :: "support_case list \<Rightarrow> rat" where
  "resolution_rate cases =
     (let closed_cases = length (filter (\<lambda>c. status c = ''Closed'') cases)
      in if cases \<noteq> [] then
           float_mul (int_truediv (int closed_cases) (int (length cases))) 100
         else 0)"

record kpis =
  total_cases :: nat
  open_cases :: nat
  resolution_rate_text :: string

text \<open>The three metric cards; \<open>None\<close> is the early return "No cases logged yet".\<close>

definition dashboard :: "database \<Rightarrow> kpis option" where
  "dashboard db =
     (let cases = get_all_cases db
      in if cases = [] then None
         else Some \<lparr>total_cases = length cases,
                    open_cases = length (filter (\<lambda>c. status c \<in> set [''Open'', ''Escalated'']) cases),
                    resolution_rate_text = format_1f (resolution_rate cases) @ ''%''\<rparr>)"

text \<open>
  Reading a text of the form digits, point, one digit back as a number; \<open>None\<close> for
  any other text.
\<close>

definition read_1f :: "string \<Rightarrow> rat option" where
  "read_1f s =
     (if length s < 3 \<or> take 1 (drop (length s - 2) s) \<noteq> ''.'' then None
      else
        (case (digits_value 0 (take (length s - 2) s), digits_value 0 (drop (length s - 1) s)) of
           (Some i, Some d) \<Rightarrow> Some (of_nat i + of_nat d / 10)
         | _ \<Rightarrow> None))"

section \<open>The operations the pages offer on cases\<close>

text \<open>
  The three places of app.py that write the \<open>cases\<close> table: the submit branch of
  \<open>new_case_form\<close>; the resolution form, opened by \<open>display_case_list\<close> on a case read
  from the table (the View/Resolve button is drawn for every listed case, whatever its
  status) and submitted with one of its two buttons; and the Delete button of the list.
\<close>

datatype operation =
    SubmitCase case_form string datetime datetime datetime "128 word"
  | ResolveCase string string bool bool datetime
  | DeleteCase string

fun apply_operation :: "operation \<Rightarrow> database \<Rightarrow> database" where
  "apply_operation (SubmitCase w acting now_id now_logged now_res u) db =
     (case new_case_form_submit w acting now_id now_logged now_res u db of
        Inl msg \<Rightarrow> db
      | Inr (new_case, db') \<Rightarrow> db')"
| "apply_operation (ResolveCase k resolution_notes close escalate now) db =
     (case lookup_case db k of
        None \<Rightarrow> db
      | Some c \<Rightarrow> snd (snd (resolve_case (Some c) resolution_notes close escalate now db)))"
| "apply_operation (DeleteCase k) db = delete_case k db"

text \<open>The operation is the Escalate button, with notes, on the case stored under \<open>k\<close>.\<close>

fun escalates :: "operation \<Rightarrow> string \<Rightarrow> bool" where
  "escalates (ResolveCase k' resolution_notes close escalate now) k =
     (k' = k \<and> \<not> close \<and> escalate \<and> resolution_notes \<noteq> [])"
| "escalates (SubmitCase w acting now_id now_logged now_res u) k = False"
| "escalates (DeleteCase k') k = False"

text \<open>The operation is a form submission whose generated case id is \<open>k\<close>.\<close>

fun reuses_id :: "operation \<Rightarrow> string \<Rightarrow> bool" where
  "reuses_id (SubmitCase w acting now_id now_logged now_res u) k = (generate_case_id now_id u = k)"
| "reuses_id (ResolveCase k' resolution_notes close escalate now) k = False"
| "reuses_id (DeleteCase k') k = False"

text \<open>
  The life of one case after its creation: the submissions of the resolution form on
  it, each with its notes, its two buttons and its clock reading, in order.
\<close>

type_synonym resolve_submission = "string \<times> bool \<times> bool \<times> datetime"

fun run_resolves ::
  "support_case \<Rightarrow> database \<Rightarrow> resolve_submission list \<Rightarrow> support_case \<times> database" where
  "run_resolves c db [] = (c, db)"
| "run_resolves c db ((resolution_notes, close, escalate, now) # rest) =
     (case resolve_case (Some c) resolution_notes close escalate now db of
        (msg, Some c', db') \<Rightarrow> run_resolves c' db' rest
      | (msg, None, db') \<Rightarrow> (c, db'))"

text \<open>The submission closes or escalates the case: a button was pressed, with notes.\<close>

fun closes_or_escalates :: "resolve_submission \<Rightarrow> bool" where
  "closes_or_escalates (resolution_notes, close, escalate, now) =
     ((close \<or> escalate) \<and> resolution_notes \<noteq> [])"

section \<open>Sample values\<close>

text \<open>A clock reading and a stored case on which the theorems below are instantiated.\<close>

definition demo_now :: datetime where
  "demo_now = \<lparr>dt_year = 2024, dt_month = 1, dt_day = 1, dt_hour = 10, dt_minute = 15, dt_second = 0\<rparr>"

definition demo_case :: support_case where
  "demo_case =
     \<lparr>case_id = ''VL-20240101-0a1b2c3d'', channel = ''WhatsApp'',
      timestamps = \<lparr>received = Some ''2024-01-01 10:00:00'', logged = ''2024-01-01 10:15:00'', resolved = None\<rparr>,
      reporter = \<lparr>reporter_name = ''Mary'', reporter_role = ''Agent'', agent_number = Some ''A17'',
                  contact = Some ''0977000000''\<rparr>,
      region = ''Lusaka'',
      issue = \<lparr>issue_type = ''Float'', description = ''float not reflecting'', attachments = []\<rparr>,
      status = ''Open'', resolution = None, handled_by = ''admin''\<rparr>"

definition demo_uuid :: "128 word" where
  "demo_uuid = 0x0a1b2c3d123443218765aabbccddeeff"

definition demo_form :: case_form where
  "demo_form =
     \<lparr>in_channel = ''WhatsApp'', in_name = ''Mary'', in_role = ''Agent'', in_agent_num = ''A17'',
      in_phone = ''0977000000'', in_email = [],
      in_received = \<lparr>dt_year = 2024, dt_month = 1, dt_day = 1, dt_hour = 10, dt_minute = 0,
                      dt_second = 0\<rparr>,
      in_region = ''Lusaka'', in_issue_type = ''Float'', in_description = ''float not reflecting'',
      in_resolution_notes = ''called back'', in_uploaded_files = []\<rparr>"

definition demo_closed :: support_case where
  "demo_closed =
     demo_case\<lparr>status := ''Closed'',
       resolution := Some \<lparr>res_notes = ''fixed it'', action_taken = ''Closed by agent'',
                           timestamp = ''2024-01-01 10:15:00''\<rparr>\<rparr>"

definition demo_bad_logged :: support_case where
  "demo_bad_logged =
     demo_case\<lparr>timestamps := \<lparr>received = Some ''2024-01-01 10:00:00'', logged = ''not a date'',
                               resolved = None\<rparr>\<rparr>"

section \<open>Facts about the sample values and the store\<close>

lemma status_demo_closed: "status demo_closed = ''Closed''"
  by (simp add: demo_closed_def)

lemma status_demo_case: "status demo_case = ''Open''"
  by (simp add: demo_case_def)

lemma lookup_case_save_case: "lookup_case (save_case c db) (case_id c) = Some c"
proof -
  have "find (\<lambda>row. fst row = k) (filter (\<lambda>row. fst row \<noteq> k) rows @ [(k, v)]) = Some (k, v)"
    for k :: string and v :: support_case and rows
    by (induction rows) auto
  then show ?thesis
    by (simp add: lookup_case_def save_case_def)
qed

lemma store_ok_save_case: "store_ok db \<Longrightarrow> store_ok (save_case c db)"
  by (auto simp: store_ok_def save_case_def list_all_iff distinct_map_filter)

lemma store_ok_delete_case: "store_ok db \<Longrightarrow> store_ok (delete_case k db)"
  by (auto simp: store_ok_def delete_case_def list_all_iff distinct_map_filter)

lemma store_ok_init_db: "store_ok db \<Longrightarrow> store_ok (init_db db)"
  by (simp add: store_ok_def init_db_def)

lemma store_ok_fresh_db: "store_ok fresh_db"
  by (simp add: store_ok_def fresh_db_def)

section \<open>Resolving a case\<close>

text \<open>
  Claim C1. With non-empty resolution notes, the Close button gives the case status
  \<open>Closed\<close> and the resolution \<open>{notes, "Closed by agent", now}\<close>; the Escalate button
  gives status \<open>Open\<close> and the resolution \<open>{notes, "Escalated to senior support", now}\<close>.
  In both branches the database after the call is \<open>save_case\<close> of the updated case, and
  the row under the case's \<open>case_id\<close> holds the updated case.
\<close>

theorem resolve_case_close_escalate:
  assumes "resolution_notes \<noteq> []"
  shows "(let c' = c\<lparr>status := ''Closed'',
                     resolution := Some \<lparr>res_notes = resolution_notes, action_taken = ''Closed by agent'',
                                         timestamp = strftime_full now\<rparr>\<rparr>;
              r = resolve_case (Some c) resolution_notes True escalate now db
          in fst (snd r) = Some c' \<and> snd (snd r) = save_case c' db \<and>
             lookup_case (snd (snd r)) (case_id c) = Some c') \<and>
         (let c' = c\<lparr>status := ''Open'',
                     resolution := Some \<lparr>res_notes = resolution_notes,
                                         action_taken = ''Escalated to senior support'',
                                         timestamp = strftime_full now\<rparr>\<rparr>;
              r = resolve_case (Some c) resolution_notes False True now db
          in fst (snd r) = Some c' \<and> snd (snd r) = save_case c' db \<and>
             lookup_case (snd (snd r)) (case_id c) = Some c')"
proof -
  have k: "lookup_case (save_case (c\<lparr>status := s, resolution := r\<rparr>) db) (case_id c)
             = Some (c\<lparr>status := s, resolution := r\<rparr>)" for s r
    using lookup_case_save_case [of "c\<lparr>status := s, resolution := r\<rparr>" db] by simp
  show ?thesis
    using assms by (simp add: resolve_case_def Let_def k)
qed

text \<open>The theorem at the sample case, closed with notes and escalated with notes.\<close>

theorem resolve_case_close_escalate_witness:
  "''fixed it'' \<noteq> [] \<and>
   lookup_case (snd (snd (resolve_case (Some demo_case) ''fixed it'' True False demo_now fresh_db)))
     (case_id demo_case)
     = Some (demo_case\<lparr>status := ''Closed'',
               resolution := Some \<lparr>res_notes = ''fixed it'', action_taken = ''Closed by agent'',
                                   timestamp = strftime_full demo_now\<rparr>\<rparr>) \<and>
   fst (snd (resolve_case (Some demo_case) ''escalating'' False True demo_now fresh_db))
     = Some (demo_case\<lparr>status := ''Open'',
               resolution := Some \<lparr>res_notes = ''escalating'',
                                   action_taken = ''Escalated to senior support'',
                                   timestamp = strftime_full demo_now\<rparr>\<rparr>)"
proof -
  have n1: "''fixed it'' \<noteq> []" and n2: "''escalating'' \<noteq> []"
    by simp_all
  note a = resolve_case_close_escalate [OF n1, where c = demo_case and escalate = False
      and now = demo_now and db = fresh_db, unfolded Let_def]
  note b = resolve_case_close_escalate [OF n2, where c = demo_case and escalate = False
      and now = demo_now and db = fresh_db, unfolded Let_def]
  from n1 a b show ?thesis by blast
qed

text \<open>
  Claim C3. With empty resolution notes, whichever button was pressed, the page shows the
  validation error, the case dictionary is the one passed in and the database is the one
  passed in: nothing is written.
\<close>

theorem resolve_case_empty_notes:
  assumes "close \<or> escalate"
  shows "resolve_case (Some c) [] close escalate now db
           = (Some (Error ''Please provide resolution notes''), Some c, db)"
  using assms by (simp add: resolve_case_def)

text \<open>The theorem for each of the two buttons, on a database that holds the sample case.\<close>

theorem resolve_case_empty_notes_witness:
  "(True \<or> False) \<and> (False \<or> True) \<and>
   resolve_case (Some demo_case) [] True False demo_now (save_case demo_case fresh_db)
     = (Some (Error ''Please provide resolution notes''), Some demo_case, save_case demo_case fresh_db) \<and>
   resolve_case (Some demo_case) [] False True demo_now (save_case demo_case fresh_db)
     = (Some (Error ''Please provide resolution notes''), Some demo_case, save_case demo_case fresh_db)"
  using resolve_case_empty_notes [where close = True and escalate = False and c = demo_case
          and now = demo_now and db = "save_case demo_case fresh_db"]
        resolve_case_empty_notes [where close = False and escalate = True and c = demo_case
          and now = demo_now and db = "save_case demo_case fresh_db"]
  by simp

section \<open>Saving and reading back\<close>

text \<open>
  Claim C9. After \<open>save_case c\<close> the table holds exactly one row under the key
  \<open>case_id c\<close>, and its document is \<open>c\<close>: an earlier row under that key is replaced.
  On every table written by this program (key column equal to the stored \<open>case_id\<close>,
  keys unique), \<open>get_all_cases\<close> then yields exactly one record whose \<open>case_id\<close> is that
  of \<open>c\<close>, the record is \<open>c\<close> itself, and the table is again of that kind.
\<close>

theorem save_case_get_all_cases:
  "filter (\<lambda>row. fst row = case_id c) (cases_tbl (save_case c db)) = [(case_id c, c)] \<and>
   lookup_case (save_case c db) (case_id c) = Some c \<and>
   (store_ok db \<longrightarrow>
      filter (\<lambda>x. case_id x = case_id c) (get_all_cases (save_case c db)) = [c] \<and>
      store_ok (save_case c db))"
proof -
  have a: "filter (\<lambda>row. fst row = case_id c) (cases_tbl (save_case c db)) = [(case_id c, c)]"
    by (simp add: save_case_def filter_empty_conv)
  have "filter (\<lambda>x. case_id x = k) (map snd (filter (\<lambda>row. fst row \<noteq> k) rows)) = []"
    if "list_all (\<lambda>row. case_id (snd row) = fst row) rows" for rows :: "(string \<times> support_case) list" and k
    using that by (induction rows) simp_all
  then have b: "filter (\<lambda>x. case_id x = case_id c) (get_all_cases (save_case c db)) = [c]"
    if "store_ok db"
    using that by (simp add: get_all_cases_def save_case_def store_ok_def)
  from a b lookup_case_save_case [of c db] store_ok_save_case [of db c]
  show ?thesis by blast
qed

text \<open>Saving the sample case twice, the second time closed: one record, the closed one.\<close>

theorem save_case_get_all_cases_witness:
  "store_ok (save_case demo_case fresh_db) \<and>
   filter (\<lambda>x. case_id x = case_id demo_case)
     (get_all_cases (save_case (demo_case\<lparr>status := ''Closed''\<rparr>) (save_case demo_case fresh_db)))
     = [demo_case\<lparr>status := ''Closed''\<rparr>]"
proof -
  have h: "store_ok (save_case demo_case fresh_db)"
    by (rule store_ok_save_case) (rule store_ok_fresh_db)
  have e: "case_id (demo_case\<lparr>status := ''Closed''\<rparr>) = case_id demo_case"
    by simp
  note t = save_case_get_all_cases [where db = "save_case demo_case fresh_db"
      and c = "demo_case\<lparr>status := ''Closed''\<rparr>", unfolded e]
  from h t show ?thesis by blast
qed

section \<open>Creating a case\<close>

subsection \<open>The text of numbers, dates and identifiers\<close>














lemma digit_val_nth: "d < 10 \<Longrightarrow> digit_val (''0123456789'' ! d) = Some d"
proof -
  assume "d < 10"
  then have "d = 0 \<or> d = 1 \<or> d = 2 \<or> d = 3 \<or> d = 4 \<or> d = 5 \<or> d = 6 \<or> d = 7 \<or> d = 8 \<or> d = 9"
    by arith
  then show ?thesis
    by (elim disjE) (simp_all add: digit_val_def)
qed

lemma digits_value_append:
  "digits_value acc (xs @ ys) =
     (case digits_value acc xs of None \<Rightarrow> None | Some a \<Rightarrow> digits_value a ys)"
  by (induction xs arbitrary: acc) (simp_all split: option.splits)

lemma digits_value_show_nat:
  "digits_value acc (show_nat n) = Some (acc * 10 ^ length (show_nat n) + n)"
proof (induction n arbitrary: acc rule: show_nat.induct)
  case (1 n)
  show ?case
  proof (cases "n < 10")
    case True
    then show ?thesis
      by (simp add: show_nat.simps [of n] digit_val_nth)
  next
    case False
    have m: "n mod 10 < 10" by simp
    have "10 * (n div 10) + n mod 10 = n" by simp
    then have e: "(acc * 10 ^ k + n div 10) * 10 + n mod 10 = acc * (10 * 10 ^ k) + n" for k
      by (simp add: algebra_simps)
    from False show ?thesis
      by (simp add: show_nat.simps [of n] digits_value_append "1.IH" digit_val_nth [OF m] e
          mult.commute)
  qed
qed

lemma digits_value_zeros: "digits_value 0 (replicate k (CHR ''0'') @ s) = digits_value 0 s"
  by (induction k) (simp_all add: digit_val_def)

lemma digits_value_zfill: "digits_value 0 (zfill w (show_nat n)) = Some n"
  by (simp add: zfill_def digits_value_zeros digits_value_show_nat)

lemma length_show_nat_pos: "0 < length (show_nat n)"
  by (cases "n < 10") (simp_all add: show_nat.simps [of n])

lemma show_nat_digit: "d < 10 \<Longrightarrow> show_nat d = [''0123456789'' ! d]"
  by (simp add: show_nat.simps [of d])

subsection \<open>The created case\<close>



section \<open>Filtering by status\<close>

text \<open>
  Claim C6. With the filter \<open>All\<close> the list is the whole table; with \<open>Open\<close> it is
  exactly the cases whose status is \<open>Open\<close> or \<open>Escalated\<close>, none of them \<open>Closed\<close>;
  with \<open>Closed\<close> it is exactly the cases whose status is \<open>Closed\<close>.
\<close>

theorem filter_cases_by_status:
  "filter_cases ''All'' db = get_all_cases db \<and>
   filter_cases ''Open'' db
     = filter (\<lambda>c. status c = ''Open'' \<or> status c = ''Escalated'') (get_all_cases db) \<and>
   filter (\<lambda>c. status c = ''Closed'') (filter_cases ''Open'' db) = [] \<and>
   filter_cases ''Closed'' db = filter (\<lambda>c. status c = ''Closed'') (get_all_cases db)"
  by (auto simp: filter_cases_def Let_def filter_empty_conv)

text \<open>The theorem on a table that holds the open sample case.\<close>

theorem filter_cases_by_status_witness:
  "filter_cases ''All'' (save_case demo_case fresh_db) = [demo_case] \<and>
   filter_cases ''Open'' (save_case demo_case fresh_db) = [demo_case] \<and>
   filter_cases ''Closed'' (save_case demo_case fresh_db) = []"
  using filter_cases_by_status [of "save_case demo_case fresh_db"]
  by (simp add: get_all_cases_def save_case_def fresh_db_def status_demo_case)

section \<open>The default administrator\<close>

lemma find_snoc_fresh:
  "\<not> list_ex P xs \<Longrightarrow> P a \<Longrightarrow> find P (xs @ [a]) = Some a"
  by (induction xs) auto

text \<open>
  Claim C10. When no user named \<open>admin\<close> is stored, \<open>init_db\<close> appends the active user
  \<open>admin\<close> with password \<open>admin123\<close>, role \<open>Admin\<close> and region \<open>All\<close>, and logging in
  as \<open>admin\<close> with \<open>admin123\<close> then succeeds; in particular on a fresh database.
\<close>

theorem init_db_seeds_admin:
  assumes "\<not> list_ex (\<lambda>u. username u = ''admin'') (get_all_users db)"
  shows "get_all_users (init_db db)
           = get_all_users db @ [\<lparr>username = ''admin'', password = ''admin123'', user_role = ''Admin'',
                                   user_region = ''All'', active = True\<rparr>] \<and>
         login ''admin'' ''admin123'' (init_db db)
           = Inr \<lparr>username = ''admin'', password = ''admin123'', user_role = ''Admin'',
                   user_region = ''All'', active = True\<rparr> \<and>
         login ''admin'' ''admin123'' (init_db fresh_db)
           = Inr \<lparr>username = ''admin'', password = ''admin123'', user_role = ''Admin'',
                   user_region = ''All'', active = True\<rparr>"
proof -
  have a: "\<not> list_ex (\<lambda>u. username u = ''admin'' \<and> password u = ''admin123'' \<and> active u) (users_tbl db)"
    using assms by (auto simp: get_all_users_def list_ex_iff)
  have "find (\<lambda>u. username u = ''admin'' \<and> password u = ''admin123'' \<and> active u)
          (users_tbl db @ [admin_user]) = Some admin_user"
    using a by (rule find_snoc_fresh) (simp add: admin_user_def)
  moreover have "login ''admin'' ''admin123'' (init_db fresh_db) = Inr admin_user"
    by (simp add: login_def init_db_def fresh_db_def get_all_users_def admin_user_def)
  ultimately show ?thesis
    using assms by (simp add: login_def init_db_def get_all_users_def admin_user_def)
qed

text \<open>The theorem on the fresh database.\<close>

theorem init_db_seeds_admin_witness:
  "\<not> list_ex (\<lambda>u. username u = ''admin'') (get_all_users fresh_db) \<and>
   get_all_users (init_db fresh_db) = [admin_user] \<and>
   login ''admin'' ''admin123'' (init_db fresh_db) = Inr admin_user"
  using init_db_seeds_admin [of fresh_db]
  by (simp add: fresh_db_def get_all_users_def admin_user_def)

section \<open>Leaving the status \<open>Closed\<close>\<close>

lemma find_filter_other:
  "k' \<noteq> k \<Longrightarrow> find (\<lambda>row. fst row = k) (filter (\<lambda>row. fst row \<noteq> k') rows) = find (\<lambda>row. fst row = k) rows"
  by (induction rows) auto

lemma find_filter_snoc_other:
  "k' \<noteq> k \<Longrightarrow>
   find (\<lambda>row. fst row = k) (filter (\<lambda>row. fst row \<noteq> k') rows @ [(k', v)])
     = find (\<lambda>row. fst row = k) rows"
  by (induction rows) auto

lemma lookup_case_save_case_other:
  "case_id c' \<noteq> k \<Longrightarrow> lookup_case (save_case c' db) k = lookup_case db k"
  by (simp add: lookup_case_def save_case_def find_filter_snoc_other)

lemma lookup_case_delete_case_other:
  "k' \<noteq> k \<Longrightarrow> lookup_case (delete_case k' db) k = lookup_case db k"
  by (simp add: lookup_case_def delete_case_def find_filter_other)

lemma lookup_case_delete_case_same: "lookup_case (delete_case k db) k = None"
proof -
  have "find (\<lambda>row. fst row = k) (filter (\<lambda>row. fst row \<noteq> k) rows) = None"
    for rows :: "(string \<times> support_case) list"
    by (induction rows) auto
  then show ?thesis by (simp add: lookup_case_def delete_case_def)
qed

lemma find_row_key:
  "list_all (\<lambda>row. case_id (snd row) = fst row) rows \<Longrightarrow> find (\<lambda>row. fst row = k) rows = Some r
    \<Longrightarrow> case_id (snd r) = k"
proof (induction rows)
  case Nil
  then show ?case by simp
next
  case (Cons a rows)
  show ?case
  proof (cases "fst a = k")
    case True
    with Cons.prems show ?thesis by simp
  next
    case False
    with Cons show ?thesis by simp
  qed
qed

lemma lookup_case_key: "store_ok db \<Longrightarrow> lookup_case db k = Some c \<Longrightarrow> case_id c = k"
proof -
  assume ok: "store_ok db" and l: "lookup_case db k = Some c"
  from l obtain r where f: "find (\<lambda>row. fst row = k) (cases_tbl db) = Some r" and c: "c = snd r"
    by (cases "find (\<lambda>row. fst row = k) (cases_tbl db)") (simp_all add: lookup_case_def)
  from ok have "list_all (\<lambda>row. case_id (snd row) = fst row) (cases_tbl db)"
    by (simp add: store_ok_def)
  from this f have "case_id (snd r) = k" by (rule find_row_key)
  with c show "case_id c = k" by simp
qed

text \<open>
  Claim C2, as stated, fails: the resolution form is offered for a closed case too, and
  its Escalate button, pressed with notes, writes the status \<open>Open\<close> whatever the
  status was. Here the sample case is stored closed and escalated once.
\<close>

theorem closed_case_reopened_by_escalate_counterexample:
  "status demo_closed = ''Closed'' \<and>
   lookup_case (save_case demo_closed fresh_db) (case_id demo_closed) = Some demo_closed \<and>
   map_option status
     (lookup_case
        (apply_operation (ResolveCase (case_id demo_closed) ''still failing'' False True demo_now)
           (save_case demo_closed fresh_db))
        (case_id demo_closed)) = Some ''Open''"
  by code_simp

text \<open>
  Claim C2, amended. For a case stored with status \<open>Closed\<close>: the Escalate button of the
  resolution form, pressed with notes on that case, leaves it stored with status \<open>Open\<close>;
  every other operation (the Close button, either button with empty notes, the
  resolution form on another case, a deletion, a form submission whose generated id is
  not that of the case) leaves it stored with status \<open>Closed\<close> or removes it.
\<close>

theorem closed_case_left_only_by_escalate:
  assumes "store_ok db" and "lookup_case db k = Some c" and "status c = ''Closed''"
  shows "(escalates op k \<longrightarrow>
            map_option status (lookup_case (apply_operation op db) k) = Some ''Open'') \<and>
         (\<not> escalates op k \<and> \<not> reuses_id op k \<longrightarrow>
            lookup_case (apply_operation op db) k = None \<or>
            map_option status (lookup_case (apply_operation op db) k) = Some ''Closed'')"
proof (cases op)
  case (SubmitCase w acting now_id now_logged now_res u)
  show ?thesis
  proof (cases "new_case_form_submit w acting now_id now_logged now_res u db")
    case (Inl msg)
    with SubmitCase assms show ?thesis by simp
  next
    case (Inr p)
    then have p: "p = (create_new_case (collect_form_data w) acting now_id now_logged now_res u,
        save_case (create_new_case (collect_form_data w) acting now_id now_logged now_res u) db)"
      by (auto simp: new_case_form_submit_def Let_def split: if_splits)
    have "case_id (create_new_case (collect_form_data w) acting now_id now_logged now_res u)
        = generate_case_id now_id u"
      by (simp add: create_new_case_def Let_def)
    with SubmitCase Inr p assms show ?thesis
      by (auto simp: lookup_case_save_case_other)
  qed
next
  case (ResolveCase k' resolution_notes close escalate now)
  show ?thesis
  proof (cases "k' = k")
    case True
    have s: "lookup_case (save_case (c\<lparr>status := s, resolution := r\<rparr>) db) k
        = Some (c\<lparr>status := s, resolution := r\<rparr>)" for s r
      using lookup_case_save_case [of "c\<lparr>status := s, resolution := r\<rparr>" db]
        lookup_case_key [OF assms(1,2)] by simp
    from True ResolveCase assms show ?thesis
      by (auto simp: resolve_case_def Let_def s)
  next
    case False
    show ?thesis
    proof (cases "lookup_case db k'")
      case None
      with False ResolveCase assms show ?thesis by simp
    next
      case (Some c0)
      with assms(1) have "case_id c0 = k'" by (rule lookup_case_key)
      with False have o: "lookup_case (save_case (c0\<lparr>status := s, resolution := r\<rparr>) db) k
          = lookup_case db k" for s r
        by (simp add: lookup_case_save_case_other)
      from False Some ResolveCase assms show ?thesis
        by (auto simp: resolve_case_def Let_def o)
    qed
  qed
next
  case (DeleteCase k')
  with assms show ?thesis
    by (cases "k' = k") (simp_all add: lookup_case_delete_case_same lookup_case_delete_case_other)
qed

text \<open>The theorem on the stored closed sample case: escalated, it is open; closed again, it stays closed.\<close>

theorem closed_case_left_only_by_escalate_witness:
  "store_ok (save_case demo_closed fresh_db) \<and>
   lookup_case (save_case demo_closed fresh_db) (case_id demo_closed) = Some demo_closed \<and>
   status demo_closed = ''Closed'' \<and>
   escalates (ResolveCase (case_id demo_closed) ''still failing'' False True demo_now) (case_id demo_closed) \<and>
   map_option status
     (lookup_case
        (apply_operation (ResolveCase (case_id demo_closed) ''still failing'' False True demo_now)
           (save_case demo_closed fresh_db))
        (case_id demo_closed)) = Some ''Open'' \<and>
   \<not> escalates (ResolveCase (case_id demo_closed) ''done'' True False demo_now) (case_id demo_closed) \<and>
   \<not> reuses_id (ResolveCase (case_id demo_closed) ''done'' True False demo_now) (case_id demo_closed) \<and>
   (lookup_case
        (apply_operation (ResolveCase (case_id demo_closed) ''done'' True False demo_now)
           (save_case demo_closed fresh_db))
        (case_id demo_closed) = None \<or>
    map_option status
     (lookup_case
        (apply_operation (ResolveCase (case_id demo_closed) ''done'' True False demo_now)
           (save_case demo_closed fresh_db))
        (case_id demo_closed)) = Some ''Closed'')"
proof -
  have h1: "store_ok (save_case demo_closed fresh_db)"
    by (rule store_ok_save_case) (rule store_ok_fresh_db)
  have h2: "lookup_case (save_case demo_closed fresh_db) (case_id demo_closed) = Some demo_closed"
    by (rule lookup_case_save_case)
  have h3: "status demo_closed = ''Closed''"
    by (simp add: demo_closed_def)
  have e1: "escalates (ResolveCase (case_id demo_closed) ''still failing'' False True demo_now)
      (case_id demo_closed)"
    by simp
  have e2: "\<not> escalates (ResolveCase (case_id demo_closed) ''done'' True False demo_now)
      (case_id demo_closed)"
    and e3: "\<not> reuses_id (ResolveCase (case_id demo_closed) ''done'' True False demo_now)
      (case_id demo_closed)"
    by simp_all
  note a = closed_case_left_only_by_escalate [OF h1 h2 h3,
      where op = "ResolveCase (case_id demo_closed) ''still failing'' False True demo_now"]
  note b = closed_case_left_only_by_escalate [OF h1 h2 h3,
      where op = "ResolveCase (case_id demo_closed) ''done'' True False demo_now"]
  from h1 h2 h3 e1 e2 e3 a b show ?thesis by blast
qed

section \<open>When a case has a resolution\<close>

lemma resolution_run_resolves:
  "resolution (fst (run_resolves c db subs)) \<noteq> None
     \<longleftrightarrow> resolution c \<noteq> None \<or> list_ex closes_or_escalates subs"
proof (induction subs arbitrary: c db)
  case Nil
  show ?case by simp
next
  case (Cons s subs)
  obtain resolution_notes close escalate now where s: "s = (resolution_notes, close, escalate, now)"
    by (cases s) auto
  show ?case
  proof (cases "closes_or_escalates s")
    case True
    with s obtain msg c' db' where
      r: "resolve_case (Some c) resolution_notes close escalate now db = (msg, Some c', db')"
      and rc: "resolution c' \<noteq> None"
      by (auto simp: resolve_case_def Let_def)
    from r s have "run_resolves c db (s # subs) = run_resolves c' db' subs"
      by simp
    with Cons.IH [of c' db'] rc True show ?thesis
      by simp
  next
    case False
    with s have "resolve_case (Some c) resolution_notes close escalate now db
        = (if close \<or> escalate then Some (Error ''Please provide resolution notes'') else None,
           Some c, db)"
      by (auto simp: resolve_case_def)
    with s False Cons.IH [of c db] show ?thesis
      by auto
  qed
qed

text \<open>
  Claim C5, as stated, fails: a case created from a form with resolution notes has a
  resolution from the start, before any submission of the resolution form.
\<close>

theorem resolution_without_resolve_counterexample:
  "\<not> (resolution
        (fst (run_resolves
               (create_new_case (collect_form_data demo_form) ''admin'' demo_now demo_now demo_now
                  demo_uuid)
               fresh_db []))
      \<noteq> None
      \<longleftrightarrow> list_ex closes_or_escalates [])"
  by code_simp

text \<open>
  Claim C5, amended. After creation and any sequence of submissions of the resolution
  form, the case has a resolution if and only if resolution notes were given at creation
  or one of the submissions closed or escalated it.
\<close>

theorem resolution_set_iff_notes_or_resolved:
  "resolution
     (fst (run_resolves (create_new_case fd acting now_id now_logged now_res u) db subs)) \<noteq> None
   \<longleftrightarrow> fd_resolution_notes fd \<noteq> [] \<or> list_ex closes_or_escalates subs"
proof -
  have "resolution (create_new_case fd acting now_id now_logged now_res u) \<noteq> None
      \<longleftrightarrow> fd_resolution_notes fd \<noteq> []"
    by (simp add: create_new_case_def Let_def)
  then show ?thesis
    by (simp only: resolution_run_resolves)
qed

text \<open>
  The theorem on a case created without notes: still without a resolution after a Close
  with empty notes, with one after a Close with notes.
\<close>

theorem resolution_set_iff_notes_or_resolved_witness:
  "fd_resolution_notes (collect_form_data (demo_form\<lparr>in_resolution_notes := []\<rparr>)) = [] \<and>
   list_ex closes_or_escalates [([], True, False, demo_now), (''fixed it'', True, False, demo_now)] \<and>
   resolution
     (fst (run_resolves
            (create_new_case (collect_form_data (demo_form\<lparr>in_resolution_notes := []\<rparr>)) ''admin''
               demo_now demo_now demo_now demo_uuid)
            fresh_db [([], True, False, demo_now), (''fixed it'', True, False, demo_now)])) \<noteq> None \<and>
   \<not> list_ex closes_or_escalates [([], True, False, demo_now)] \<and>
   resolution
     (fst (run_resolves
            (create_new_case (collect_form_data (demo_form\<lparr>in_resolution_notes := []\<rparr>)) ''admin''
               demo_now demo_now demo_now demo_uuid)
            fresh_db [([], True, False, demo_now)])) = None"
proof -
  have n: "fd_resolution_notes (collect_form_data (demo_form\<lparr>in_resolution_notes := []\<rparr>)) = []"
    by (simp add: collect_form_data_def)
  have e: "list_ex closes_or_escalates [([], True, False, demo_now), (''fixed it'', True, False, demo_now)]"
    and f: "\<not> list_ex closes_or_escalates [([], True, False, demo_now)]"
    by simp_all
  note a = resolution_set_iff_notes_or_resolved
      [where fd = "collect_form_data (demo_form\<lparr>in_resolution_notes := []\<rparr>)"
        and acting = "''admin''" and now_id = demo_now and now_logged = demo_now and now_res = demo_now
        and u = demo_uuid and db = fresh_db
        and subs = "[([], True, False, demo_now), (''fixed it'', True, False, demo_now)]"]
  note b = resolution_set_iff_notes_or_resolved
      [where fd = "collect_form_data (demo_form\<lparr>in_resolution_notes := []\<rparr>)"
        and acting = "''admin''" and now_id = demo_now and now_logged = demo_now and now_res = demo_now
        and u = demo_uuid and db = fresh_db
        and subs = "[([], True, False, demo_now)]"]
  from n e f a b show ?thesis by blast
qed

section \<open>The resolution rate\<close>

subsection \<open>Rounding to a double\<close>

lemma round_half_even_close: "\<bar>of_int (round_half_even x) - x\<bar> \<le> 1 / 2"
proof -
  have "of_int \<lfloor>x\<rfloor> \<le> x" and "x < of_int \<lfloor>x\<rfloor> + 1"
    by linarith+
  then show ?thesis
    by (auto simp: round_half_even_def Let_def)
qed

lemma round_half_even_nonneg: "0 \<le> x \<Longrightarrow> 0 \<le> round_half_even x"
proof -
  assume "0 \<le> x"
  then have "0 \<le> \<lfloor>x\<rfloor>" by simp
  then show ?thesis
    by (auto simp: round_half_even_def Let_def)
qed

lemma bitlen_bounds_rat:
  assumes "0 < a"
  shows "2 powi (bitlen a - 1) \<le> (of_int a :: rat)" and "(of_int a :: rat) < 2 powi bitlen a"
proof -
  from assms have b: "2 ^ nat (bitlen a - 1) \<le> a" "a < 2 ^ nat (bitlen a)"
    using bitlen_bounds [of a] by simp_all
  from assms have p: "1 \<le> bitlen a"
    by (simp add: bitlen_alt_def)
  from b(1) have "(of_int (2 ^ nat (bitlen a - 1)) :: rat) \<le> of_int a"
    by (simp only: of_int_le_iff)
  with p show "2 powi (bitlen a - 1) \<le> (of_int a :: rat)"
    by (simp add: power_int_def)
  from b(2) have "(of_int a :: rat) < of_int (2 ^ nat (bitlen a))"
    by (simp only: of_int_less_iff)
  with p show "(of_int a :: rat) < 2 powi bitlen a"
    by (simp add: power_int_def)
qed

lemma ilog2_bounds:
  assumes "0 < q"
  shows "2 powi ilog2 q \<le> q" and "q < 2 powi (ilog2 q + 1)"
proof -
  obtain a b where ab: "quotient_of q = (a, b)"
    by (cases "quotient_of q") auto
  then have q: "q = of_int a / of_int b" and b: "0 < b"
    by (rule quotient_of_div, rule quotient_of_denom_pos)
  from assms q b have a: "0 < a"
    by (simp add: zero_less_divide_iff)
  let ?k = "bitlen a - bitlen b"
  note A = bitlen_bounds_rat [OF a] and B = bitlen_bounds_rat [OF b]
  from b have bp: "(0::rat) < of_int b" by simp
  have lo: "2 powi (?k - 1) \<le> q"
  proof -
    have "(2::rat) powi (?k - 1) = 2 powi (bitlen a - 1) / 2 powi bitlen b"
      using power_int_diff [of "2::rat" "bitlen a - 1" "bitlen b"] by (simp add: algebra_simps)
    also have "\<dots> \<le> of_int a / of_int b"
      using A(1) B(2) bp a by (intro frac_le) simp_all
    finally show ?thesis by (simp only: q)
  qed
  have hi: "q < 2 powi (?k + 1)"
  proof -
    have "q = of_int a / of_int b" by (rule q)
    also have "\<dots> < 2 powi bitlen a / 2 powi (bitlen b - 1)"
      using A(2) B(1) a by (intro frac_less) simp_all
    also have "\<dots> = 2 powi (?k + 1)"
      using power_int_diff [of "2::rat" "bitlen a" "bitlen b - 1"] by (simp add: algebra_simps)
    finally show ?thesis .
  qed
  have i: "ilog2 q = (if 2 powi ?k \<le> q then ?k else ?k - 1)"
    by (simp add: ilog2_def ab Let_def)
  show "2 powi ilog2 q \<le> q"
    using lo by (simp add: i)
  show "q < 2 powi (ilog2 q + 1)"
    using hi by (auto simp: i)
qed

lemma round_double_nonneg: "0 \<le> q \<Longrightarrow> 0 \<le> round_double q"
proof -
  assume q: "0 \<le> q"
  have "0 \<le> round_half_even (\<bar>q\<bar> / 2 powi e)" for e
    by (rule round_half_even_nonneg) simp
  with q show ?thesis
    by (simp add: round_double_def Let_def sgn_if)
qed

lemma round_double_zero: "round_double 0 = 0"
  by (simp add: round_double_def)

lemma round_double_error:
  assumes "1 / 2 ^ 1022 \<le> q"
  shows "\<bar>round_double q - q\<bar> \<le> q / 2 ^ 53"
proof -
  have tiny: "(2::rat) powi (- 1022) = 1 / 2 ^ 1022"
    by (simp add: power_int_minus_divide)
  from assms have pos: "0 < q"
    by (rule less_le_trans [rotated]) simp
  note L = ilog2_bounds [OF pos]
  have ge: "- 1022 \<le> ilog2 q"
  proof (rule ccontr)
    assume "\<not> - 1022 \<le> ilog2 q"
    then have "ilog2 q + 1 \<le> - 1022" by simp
    then have "(2::rat) powi (ilog2 q + 1) \<le> 2 powi (- 1022)"
      by (intro power_int_increasing) simp_all
    with L(2) assms tiny show False by simp
  qed
  define e where "e = ilog2 q - 52"
  define m where "m = round_half_even (q / 2 powi e)"
  have pe: "(0::rat) < 2 powi e" by simp
  from ge have mx: "max (ilog2 q - 52) (- 1074) = e"
    unfolding e_def by (intro max_absorb1) simp
  from pos have "round_double q =
      of_int (round_half_even (q / 2 powi max (ilog2 q - 52) (- 1074))) *
      2 powi max (ilog2 q - 52) (- 1074)"
    by (simp add: round_double_def Let_def)
  then have r: "round_double q = of_int m * 2 powi e"
    by (simp only: mx m_def)
  have "\<bar>of_int m - q / 2 powi e\<bar> \<le> 1 / 2"
    unfolding m_def by (rule round_half_even_close)
  then have "\<bar>of_int m - q / 2 powi e\<bar> * 2 powi e \<le> 1 / 2 * 2 powi e"
    using pe by (intro mult_right_mono) simp_all
  moreover have "\<bar>of_int m - q / 2 powi e\<bar> * 2 powi e = \<bar>of_int m * 2 powi e - q\<bar>"
  proof -
    have "\<bar>of_int m - q / 2 powi e\<bar> * 2 powi e = \<bar>(of_int m - q / 2 powi e) * 2 powi e\<bar>"
      using pe by (simp add: abs_mult)
    also have "(of_int m - q / 2 powi e) * 2 powi e = of_int m * 2 powi e - q"
      using pe by (simp add: field_simps)
    finally show ?thesis .
  qed
  moreover have "1 / 2 * (2::rat) powi e = 2 powi ilog2 q / 2 ^ 53"
  proof -
    have "(2::rat) powi e = 2 powi ilog2 q / 2 powi 52"
      unfolding e_def using power_int_diff [of "2::rat" "ilog2 q" 52] by simp
    then show ?thesis by simp
  qed
  moreover have "2 powi ilog2 q / 2 ^ 53 \<le> q / 2 ^ 53"
    using L(1) by (intro divide_right_mono) simp_all
  ultimately show ?thesis
    unfolding r by linarith
qed

subsection \<open>The rate and its text\<close>

lemma read_1f_format_1f:
  assumes "0 \<le> x"
  shows "read_1f (format_1f x) = Some (of_int (round_half_even (x * 10)) / 10)"
proof -
  define t where "t = nat \<bar>round_half_even (x * 10)\<bar>"
  define i where "i = show_nat (t div 10)"
  have m: "t mod 10 < 10" by simp
  from assms have "0 \<le> round_half_even (x * 10)"
    by (intro round_half_even_nonneg) simp
  then have tv: "(of_nat t :: rat) = of_int (round_half_even (x * 10))"
    by (simp add: t_def)
  from assms have f: "format_1f x = i @ ''.'' @ [''0123456789'' ! (t mod 10)]"
    by (simp add: format_1f_def Let_def t_def [symmetric] i_def show_nat_digit [OF m])
  have li: "0 < length i"
    unfolding i_def by (rule length_show_nat_pos)
  have di: "digits_value 0 i = Some (t div 10)"
    unfolding i_def by (simp add: digits_value_show_nat)
  have "(of_nat t :: rat) = of_nat (10 * (t div 10) + t mod 10)"
    by simp
  also have "\<dots> = 10 * of_nat (t div 10) + of_nat (t mod 10)"
    by (simp only: of_nat_add of_nat_mult of_nat_numeral)
  finally have e: "(of_nat t :: rat) = 10 * of_nat (t div 10) + of_nat (t mod 10)" .
  have v: "(of_nat (t div 10) :: rat) + of_nat (t mod 10) / 10 = of_nat t / 10"
    unfolding e by (simp add: add_divide_distrib)
  from li have "read_1f (i @ ''.'' @ [''0123456789'' ! (t mod 10)])
      = Some (of_nat (t div 10) + of_nat (t mod 10) / 10)"
    by (simp add: read_1f_def di digit_val_nth [OF m])
  then show ?thesis
    by (simp only: f v tv)
qed

lemma tenth_close: "\<bar>of_int (round_half_even (x * 10)) / 10 - x\<bar> \<le> 1 / 20"
  using round_half_even_close [of "x * 10"] by (simp add: field_simps)

lemma rate_error:
  assumes "0 < n" and "n < 2 ^ 63" and "0 \<le> c"
  shows "\<bar>float_mul (int_truediv c n) 100 - of_int c / of_int n * 100\<bar>
           \<le> of_int c / of_int n * 100 / 2 ^ 51"
proof (cases "c = 0")
  case True
  then show ?thesis
    by (simp add: float_mul_def int_truediv_def round_double_zero)
next
  case False
  with assms have c: "1 \<le> c" by simp
  define q :: rat where "q = of_int c / of_int n"
  define x where "x = round_double q"
  define r where "r = round_double (x * 100)"
  from assms have np: "(0::rat) < of_int n" by simp
  have nle: "(of_int n :: rat) \<le> 2 ^ 63"
  proof -
    from assms have "n \<le> 2 ^ 63" by simp
    then have "(of_int n :: rat) \<le> of_int (2 ^ 63)" by (simp only: of_int_le_iff)
    then show ?thesis by simp
  qed
  have "1 / 2 ^ 63 \<le> 1 / (of_int n :: rat)"
    using np nle by (intro divide_left_mono) simp_all
  also have "\<dots> \<le> q"
    unfolding q_def using c np by (intro divide_right_mono) simp_all
  finally have q63: "1 / 2 ^ 63 \<le> q" .
  have small: "(1::rat) / 2 ^ 1022 \<le> 1 / 2 ^ 63"
    by (intro divide_left_mono power_increasing) simp_all
  from small q63 have q1: "1 / 2 ^ 1022 \<le> q" by (rule order_trans)
  from q1 have ex: "\<bar>x - q\<bar> \<le> q / 2 ^ 53"
    unfolding x_def by (rule round_double_error)
  from q63 have qp: "0 < q"
    by (rule less_le_trans [rotated]) simp
  define a where "a = q / 2 ^ 53"
  from qp have a0: "0 \<le> a" and aq: "a \<le> q / 2"
    unfolding a_def by (simp_all add: field_simps)
  from ex have xa: "\<bar>x - q\<bar> \<le> a"
    by (simp only: a_def)
  from xa aq qp have xq: "q / 2 \<le> x" and x2: "x \<le> 2 * q"
    by linarith+
  have "(1::rat) / 2 ^ 1022 \<le> 1 / 2 ^ 63 * 50"
    using small by simp
  also from q63 have "\<dots> \<le> q * 50" by simp
  also from xq have "\<dots> \<le> x * 100" by simp
  finally have "1 / 2 ^ 1022 \<le> x * 100" .
  then have er: "\<bar>r - x * 100\<bar> \<le> x * 100 / 2 ^ 53"
    unfolding r_def by (rule round_double_error)
  from x2 have "x / 2 ^ 53 \<le> 2 * q / 2 ^ 53"
    by (intro divide_right_mono) simp_all
  then have xs: "x * 100 / 2 ^ 53 \<le> 200 * a"
    by (simp add: a_def)
  have g: "q * 100 / 2 ^ 51 = 400 * a"
    by (simp add: a_def)
  from er xs xa a0 have "\<bar>r - q * 100\<bar> \<le> 400 * a"
    by linarith
  then have "\<bar>r - q * 100\<bar> \<le> q * 100 / 2 ^ 51"
    by (simp only: g)
  then show ?thesis
    by (simp only: float_mul_def int_truediv_def q_def x_def r_def)
qed

lemma rate_text_samples:
  "float_mul (int_truediv 3 4) 100 = 75"
  "format_1f 75 = ''75.0''"
  "format_1f (float_mul (int_truediv 23 80) 100) = ''28.7''"
  "format_1f (float_mul (int_truediv 49 80) 100) = ''61.3''"
  "format_1f (float_mul (int_truediv 1 16) 100) = ''6.2''"
  "format_1f 0 = ''0.0''"
  by code_simp+

section \<open>The WhatsApp response time\<close>

lemma strptime_padded_received: "strptime_padded ''2024-01-01 10:00:00''
    = Some \<lparr>dt_year = 2024, dt_month = 1, dt_day = 1, dt_hour = 10, dt_minute = 0, dt_second = 0\<rparr>"
  by code_simp

lemma strptime_padded_logged: "strptime_padded ''2024-01-01 10:15:00''
    = Some \<lparr>dt_year = 2024, dt_month = 1, dt_day = 1, dt_hour = 10, dt_minute = 15, dt_second = 0\<rparr>"
  by code_simp

lemma strptime_padded_not_a_date: "strptime_padded ''not a date'' = None"
  by code_simp

lemma quarter_of_an_hour:
  "total_seconds_between
     \<lparr>dt_year = 2024, dt_month = 1, dt_day = 1, dt_hour = 10, dt_minute = 15, dt_second = 0\<rparr>
     \<lparr>dt_year = 2024, dt_month = 1, dt_day = 1, dt_hour = 10, dt_minute = 0, dt_second = 0\<rparr> = 900"
  by (simp add: total_seconds_between_def seconds_of_def)

text \<open>
  Claim C8, as stated, fails: the \<open>logged\<close> timestamp is parsed in the same \<open>try\<close> as
  the \<open>received\<close> one, so a WhatsApp case whose \<open>received\<close> parses and whose \<open>logged\<close>
  does not has no response time.
\<close>

theorem whatsapp_response_unparsed_logged_counterexample:
  "channel demo_bad_logged = ''WhatsApp'' \<and>
   received (timestamps demo_bad_logged) = Some ''2024-01-01 10:00:00'' \<and>
   strptime_padded ''2024-01-01 10:00:00'' \<noteq> None \<and>
   whatsapp_response_mins strptime_padded demo_bad_logged = None"
  by (simp add: demo_bad_logged_def demo_case_def whatsapp_response_mins_def
      strptime_padded_received strptime_padded_not_a_date)

text \<open>
  Claim C8, amended. Whatever the parser accepts, the response time is defined exactly
  when the channel is \<open>WhatsApp\<close>, \<open>received\<close> is a non-empty text that parses and
  \<open>logged\<close> parses; it is then the seconds from \<open>received\<close> to \<open>logged\<close> divided by 60,
  and otherwise it is omitted, the function returning normally. Received at
  \<open>2024-01-01 10:00:00\<close> and logged at \<open>2024-01-01 10:15:00\<close> give 15.
\<close>

theorem whatsapp_response_mins_defined:
  "(whatsapp_response_mins strptime c \<noteq> None \<longleftrightarrow>
      channel c = ''WhatsApp'' \<and>
      (case received (timestamps c) of None \<Rightarrow> False | Some r \<Rightarrow> r \<noteq> [] \<and> strptime r \<noteq> None) \<and>
      strptime (logged (timestamps c)) \<noteq> None) \<and>
   (channel c = ''WhatsApp'' \<and> received (timestamps c) = Some r \<and> r \<noteq> [] \<and>
    strptime r = Some received_t \<and> strptime (logged (timestamps c)) = Some logged_t \<longrightarrow>
      whatsapp_response_mins strptime c
        = Some (real_of_int (total_seconds_between logged_t received_t) / 60)) \<and>
   whatsapp_response_mins strptime_padded
     (c\<lparr>channel := ''WhatsApp'',
        timestamps := \<lparr>received = Some ''2024-01-01 10:00:00'', logged = ''2024-01-01 10:15:00'',
                        resolved = None\<rparr>\<rparr>) = Some 15"
proof -
  have a: "whatsapp_response_mins strptime c \<noteq> None \<longleftrightarrow>
      channel c = ''WhatsApp'' \<and>
      (case received (timestamps c) of None \<Rightarrow> False | Some r \<Rightarrow> r \<noteq> [] \<and> strptime r \<noteq> None) \<and>
      strptime (logged (timestamps c)) \<noteq> None"
  proof (cases "received (timestamps c)")
    case None
    then show ?thesis by (simp add: whatsapp_response_mins_def)
  next
    case (Some r0)
    show ?thesis
    proof (cases "strptime r0")
      case None
      with Some show ?thesis by (simp add: whatsapp_response_mins_def)
    next
      case rt: (Some received_t0)
      show ?thesis
      proof (cases "strptime (logged (timestamps c))")
        case None
        with Some rt show ?thesis by (simp add: whatsapp_response_mins_def)
      next
        case lt: (Some logged_t0)
        with Some rt show ?thesis by (simp add: whatsapp_response_mins_def del: not_None_eq)
      qed
    qed
  qed
  have b: "whatsapp_response_mins strptime c
        = Some (real_of_int (total_seconds_between logged_t received_t) / 60)"
    if "channel c = ''WhatsApp''" "received (timestamps c) = Some r" "r \<noteq> []"
      "strptime r = Some received_t" "strptime (logged (timestamps c)) = Some logged_t"
    using that by (simp add: whatsapp_response_mins_def)
  have d: "whatsapp_response_mins strptime_padded
     (c\<lparr>channel := ''WhatsApp'',
        timestamps := \<lparr>received = Some ''2024-01-01 10:00:00'', logged = ''2024-01-01 10:15:00'',
                        resolved = None\<rparr>\<rparr>) = Some 15"
    by (simp add: whatsapp_response_mins_def strptime_padded_received strptime_padded_logged
        total_seconds_between_def seconds_of_def)
  from a b d show ?thesis by blast
qed

text \<open>The theorem on the sample case, with the parser of padded timestamps.\<close>

theorem whatsapp_response_mins_defined_witness:
  "channel demo_case = ''WhatsApp'' \<and>
   received (timestamps demo_case) = Some ''2024-01-01 10:00:00'' \<and>
   ''2024-01-01 10:00:00'' \<noteq> [] \<and>
   strptime_padded ''2024-01-01 10:00:00''
     = Some \<lparr>dt_year = 2024, dt_month = 1, dt_day = 1, dt_hour = 10, dt_minute = 0, dt_second = 0\<rparr> \<and>
   strptime_padded (logged (timestamps demo_case))
     = Some \<lparr>dt_year = 2024, dt_month = 1, dt_day = 1, dt_hour = 10, dt_minute = 15, dt_second = 0\<rparr> \<and>
   whatsapp_response_mins strptime_padded demo_case = Some (900 / 60)"
proof -
  have h1: "channel demo_case = ''WhatsApp''"
    and h2: "received (timestamps demo_case) = Some ''2024-01-01 10:00:00''"
    and h3: "''2024-01-01 10:00:00'' \<noteq> []"
    and h5: "logged (timestamps demo_case) = ''2024-01-01 10:15:00''"
    by (simp_all add: demo_case_def)
  note h4 = strptime_padded_received
  from h5 have h6: "strptime_padded (logged (timestamps demo_case))
     = Some \<lparr>dt_year = 2024, dt_month = 1, dt_day = 1, dt_hour = 10, dt_minute = 15, dt_second = 0\<rparr>"
    by (simp add: strptime_padded_logged)
  note t = whatsapp_response_mins_defined [where strptime = strptime_padded and c = demo_case
      and r = "''2024-01-01 10:00:00''"
      and received_t = "\<lparr>dt_year = 2024, dt_month = 1, dt_day = 1, dt_hour = 10, dt_minute = 0, dt_second = 0\<rparr>"
      and logged_t = "\<lparr>dt_year = 2024, dt_month = 1, dt_day = 1, dt_hour = 10, dt_minute = 15, dt_second = 0\<rparr>"]
  from t h1 h2 h3 h4 h6 have "whatsapp_response_mins strptime_padded demo_case
      = Some (real_of_int (total_seconds_between
          \<lparr>dt_year = 2024, dt_month = 1, dt_day = 1, dt_hour = 10, dt_minute = 15, dt_second = 0\<rparr>
          \<lparr>dt_year = 2024, dt_month = 1, dt_day = 1, dt_hour = 10, dt_minute = 0, dt_second = 0\<rparr>) / 60)"
    by blast
  then have "whatsapp_response_mins strptime_padded demo_case = Some (900 / 60)"
    by (simp only: quarter_of_an_hour) simp
  with h1 h2 h3 h4 h6 show ?thesis by blast
qed

end
